theory Spec2Isabelle
  imports Complex_Main
begin

section \<open>The AQI conversion engine of appcopy.py\<close>

text \<open>
  The engine of \<^verbatim>\<open>appcopy.py\<close> consists of the category guide and its lookup
  (\<^verbatim>\<open>AIRNOW_AQI_GUIDE\<close>, \<^verbatim>\<open>get_airnow_aqi_info\<close>), the breakpoint tables and the
  per-pollutant interpolation (\<^verbatim>\<open>BREAKPOINTS\<close>, \<^verbatim>\<open>calculate_pollutant_aqi\<close>), the unit
  conversion and truncation of the six readings, and the reduction of the six
  sub-indices to the overall AQI and the dominant pollutant.

  Numbers: the Python code computes concentrations with binary floating point. Here a
  concentration is a rational number and the arithmetic is exact; a decimal literal of
  the source such as \<^verbatim>\<open>35.4\<close> is the fraction \<open>354 / 10\<close>. Sub-indices are Python
  integers and are modelled by \<open>int\<close>.
\<close>

subsection \<open>Python built-ins used by the engine\<close>

datatype error = ValueError

text \<open>\<^verbatim>\<open>round(x)\<close> with one argument: the nearest integer, a tie going to the even one.\<close>

definition py_round :: "rat \<Rightarrow> int" where
  "py_round x =
     (let f = \<lfloor>x\<rfloor>; d = x - of_int f
      in if d < 1 / 2 then f
         else if 1 / 2 < d then f + 1
         else if even f then f else f + 1)"

text \<open>\<^verbatim>\<open>int(x)\<close> on a number: the fractional part is dropped, towards zero.\<close>

definition py_int :: "rat \<Rightarrow> int" where
  "py_int x = (if 0 \<le> x then \<lfloor>x\<rfloor> else \<lceil>x\<rceil>)"

text \<open>
  \<^verbatim>\<open>max(iterable)\<close>: raises \<^verbatim>\<open>ValueError\<close> on an empty iterable; otherwise the running
  maximum is replaced only by a strictly greater element, so the first of several
  maximal elements is the one returned.
\<close>

definition py_max :: "int list \<Rightarrow> error + int" where
  "py_max xs =
     (case xs of
        [] \<Rightarrow> Inl ValueError
      | x # ys \<Rightarrow> Inr (fold (\<lambda>y m. if m < y then y else m) ys x))"

text \<open>
  \<^verbatim>\<open>max(d, key=d.get)\<close> on a dictionary \<open>d\<close>, given as its items in insertion order:
  the keys are visited in that order and compared by their stored values.
\<close>

definition py_max_key :: "('k \<times> int) list \<Rightarrow> error + 'k" where
  "py_max_key d =
     (case d of
        [] \<Rightarrow> Inl ValueError
      | p # ps \<Rightarrow> Inr (fst (fold (\<lambda>q m. if snd m < snd q then q else m) ps p)))"

subsection \<open>The category guide\<close>

record category =
  range_of :: "int \<times> int"
  level :: string
  color :: string
  description :: string

definition AIRNOW_AQI_GUIDE :: "category list" where
  "AIRNOW_AQI_GUIDE =
    [\<lparr>range_of = (0, 50), level = ''Good'', color = ''#00e400'',
      description = ''Air quality is satisfactory, and air pollution poses little or no risk.''\<rparr>,
     \<lparr>range_of = (51, 100), level = ''Moderate'', color = ''#ffff00'',
      description = ''Air quality is acceptable. However, there may be a risk for some people, particularly those who are unusually sensitive to air pollution.''\<rparr>,
     \<lparr>range_of = (101, 150), level = ''Unhealthy for Sensitive Groups'', color = ''#ff7e00'',
      description = ''Members of sensitive groups may experience health effects. The general public is less likely to be affected.''\<rparr>,
     \<lparr>range_of = (151, 200), level = ''Unhealthy'', color = ''#ff0000'',
      description = ''Some members of the general public may experience health effects; members of sensitive groups may experience more serious health effects.''\<rparr>,
     \<lparr>range_of = (201, 300), level = ''Very Unhealthy'', color = ''#8f3f97'',
      description = ''Health alert: The risk of health effects is increased for everyone.''\<rparr>,
     \<lparr>range_of = (301, 10000), level = ''Hazardous'', color = ''#7e0023'',
      description = ''Health warning of emergency conditions: everyone is more likely to be affected.''\<rparr>]"

text \<open>The test of the loop body: \<^verbatim>\<open>low <= aqi_value <= high\<close>.\<close>

definition in_range :: "category \<Rightarrow> int \<Rightarrow> bool" where
  "in_range cat aqi_value = (case range_of cat of (low, high) \<Rightarrow> low \<le> aqi_value \<and> aqi_value \<le> high)"

text \<open>The \<^verbatim>\<open>for\<close> loop of \<^verbatim>\<open>get_airnow_aqi_info\<close>: the first category whose range holds the value.\<close>

fun scan_guide :: "category list \<Rightarrow> int \<Rightarrow> category option" where
  "scan_guide [] aqi_value = None"
| "scan_guide (cat # cats) aqi_value =
     (if in_range cat aqi_value then Some cat else scan_guide cats aqi_value)"

definition get_airnow_aqi_info :: "int \<Rightarrow> category" where
  "get_airnow_aqi_info aqi_value =
     (case scan_guide AIRNOW_AQI_GUIDE aqi_value of
        Some cat \<Rightarrow> cat
      | None \<Rightarrow> last AIRNOW_AQI_GUIDE)"

subsection \<open>Breakpoint tables and interpolation\<close>

text \<open>A row is \<^verbatim>\<open>(bp_low, bp_hi, i_low, i_hi)\<close>.\<close>

type_synonym breakpoint = "rat \<times> rat \<times> int \<times> int"

definition BREAKPOINTS :: "string \<Rightarrow> breakpoint list option" where
  "BREAKPOINTS = map_of
    [(''o3_ppm'', [(0, 54/1000, 0, 50), (55/1000, 70/1000, 51, 100), (71/1000, 85/1000, 101, 150),
                   (86/1000, 105/1000, 151, 200), (106/1000, 200/1000, 201, 300), (201/1000, 404/1000, 301, 400)]),
     (''pm2_5'', [(0, 9, 0, 50), (91/10, 354/10, 51, 100), (355/10, 554/10, 101, 150),
                  (555/10, 1254/10, 151, 200), (1255/10, 2254/10, 201, 300), (2255/10, 3254/10, 301, 400)]),
     (''pm10'', [(0, 54, 0, 50), (55, 154, 51, 100), (155, 254, 101, 150),
                 (255, 354, 151, 200), (355, 424, 201, 300), (425, 504, 301, 400)]),
     (''co_ppm'', [(0, 44/10, 0, 50), (45/10, 94/10, 51, 100), (95/10, 124/10, 101, 150),
                   (125/10, 154/10, 151, 200), (155/10, 304/10, 201, 300), (305/10, 404/10, 301, 400)]),
     (''so2_ppb'', [(0, 35, 0, 50), (36, 75, 51, 100), (76, 185, 101, 150),
                    (186, 304, 151, 200), (305, 604, 201, 300), (605, 804, 301, 400)]),
     (''no2_ppb'', [(0, 53, 0, 50), (54, 100, 51, 100), (101, 360, 101, 150),
                    (361, 649, 151, 200), (650, 1249, 201, 300), (1250, 1649, 301, 400)])]"

text \<open>
  The expression that both branches of \<^verbatim>\<open>calculate_pollutant_aqi\<close> compute before
  rounding: \<^verbatim>\<open>((i_hi - i_low) / (bp_hi - bp_low)) * (concentration - bp_low) + i_low\<close>.
\<close>

definition aqi :: "breakpoint \<Rightarrow> rat \<Rightarrow> rat" where
  "aqi bp concentration =
     (case bp of (bp_low, bp_hi, i_low, i_hi) \<Rightarrow>
        (of_int (i_hi - i_low) / (bp_hi - bp_low)) * (concentration - bp_low) + of_int i_low)"

text \<open>The test of the loop: \<^verbatim>\<open>bp_low <= concentration <= bp_hi\<close>.\<close>

definition in_bracket :: "breakpoint \<Rightarrow> rat \<Rightarrow> bool" where
  "in_bracket bp concentration =
     (case bp of (bp_low, bp_hi, i_low, i_hi) \<Rightarrow> bp_low \<le> concentration \<and> concentration \<le> bp_hi)"

text \<open>
  The \<^verbatim>\<open>for\<close> loop: the first row whose bracket holds the concentration decides the
  result; \<open>None\<close> when the loop ends without returning.
\<close>

fun scan_brackets :: "breakpoint list \<Rightarrow> rat \<Rightarrow> int option" where
  "scan_brackets [] concentration = None"
| "scan_brackets ((bp_low, bp_hi, i_low, i_hi) # breakpoints) concentration =
     (if bp_low \<le> concentration \<and> concentration \<le> bp_hi
      then Some (if bp_hi - bp_low = 0 then i_low
                 else py_round (aqi (bp_low, bp_hi, i_low, i_hi) concentration))
      else scan_brackets breakpoints concentration)"

text \<open>The code after the loop, on the last row \<^verbatim>\<open>breakpoints[-1]\<close>.\<close>

definition beyond_last :: "breakpoint \<Rightarrow> rat \<Rightarrow> int" where
  "beyond_last bp concentration =
     (case bp of (bp_low, bp_hi, i_low, i_hi) \<Rightarrow>
        if bp_hi < concentration
        then (if bp_hi - bp_low = 0 then i_hi
              else py_round (aqi (bp_low, bp_hi, i_low, i_hi) concentration))
        else 0)"

text \<open>Lines 56 to 66: the loop, and the code after it when the loop did not return.\<close>

definition scan_then_last :: "breakpoint list \<Rightarrow> rat \<Rightarrow> int" where
  "scan_then_last breakpoints concentration =
     (case scan_brackets breakpoints concentration of
        Some a \<Rightarrow> a
      | None \<Rightarrow> beyond_last (last breakpoints) concentration)"

text \<open>
  The two guards come first: a negative concentration, and a key that
  \<^verbatim>\<open>BREAKPOINTS.get\<close> does not know (or an empty table), both give 0.
\<close>

definition calculate_pollutant_aqi :: "string \<Rightarrow> rat \<Rightarrow> int" where
  "calculate_pollutant_aqi pollutant_key concentration =
     (if concentration < 0 then 0
      else case BREAKPOINTS pollutant_key of
             None \<Rightarrow> 0
           | Some breakpoints \<Rightarrow>
               if breakpoints = [] then 0
               else scan_then_last breakpoints concentration)"

subsection \<open>Unit conversion and truncation\<close>

definition MW_O3 :: rat where "MW_O3 = 48"
definition MW_CO :: rat where "MW_CO = 2801 / 100"
definition MW_SO2 :: rat where "MW_SO2 = 6407 / 100"
definition MW_NO2 :: rat where "MW_NO2 = 4601 / 100"
definition MOLAR_VOLUME :: rat where "MOLAR_VOLUME = 2445 / 100"

definition o3_raw_ppm :: "rat \<Rightarrow> rat" where
  "o3_raw_ppm o3_v = (o3_v * MOLAR_VOLUME) / (MW_O3 * 1000)"

definition co_raw_ppm :: "rat \<Rightarrow> rat" where
  "co_raw_ppm co_v = (co_v * MOLAR_VOLUME) / (MW_CO * 1000)"

definition so2_raw_ppb :: "rat \<Rightarrow> rat" where
  "so2_raw_ppb so2_v = (so2_v * MOLAR_VOLUME) / MW_SO2"

definition no2_raw_ppb :: "rat \<Rightarrow> rat" where
  "no2_raw_ppb no2_v = (no2_v * MOLAR_VOLUME) / MW_NO2"

definition o3_c :: "rat \<Rightarrow> rat" where
  "o3_c o3_v = of_int (py_int (o3_raw_ppm o3_v * 1000)) / 1000"

definition pm25_c :: "rat \<Rightarrow> rat" where
  "pm25_c pm25_v = of_int (py_int (pm25_v * 10)) / 10"

definition pm10_c :: "rat \<Rightarrow> rat" where
  "pm10_c pm10_v = of_int (py_int pm10_v)"

definition co_c :: "rat \<Rightarrow> rat" where
  "co_c co_v = of_int (py_int (co_raw_ppm co_v * 10)) / 10"

definition so2_c :: "rat \<Rightarrow> rat" where
  "so2_c so2_v = of_int (py_int (so2_raw_ppb so2_v))"

definition no2_c :: "rat \<Rightarrow> rat" where
  "no2_c no2_v = of_int (py_int (no2_raw_ppb no2_v))"

subsection \<open>Sub-indices, overall AQI and dominant pollutant\<close>

text \<open>\<^verbatim>\<open>components.get(k, 0)\<close>: a missing reading counts as 0.\<close>

definition components_get :: "(string \<Rightarrow> rat option) \<Rightarrow> string \<Rightarrow> rat" where
  "components_get components k = (case components k of Some v \<Rightarrow> v | None \<Rightarrow> 0)"

text \<open>
  The dictionary \<^verbatim>\<open>aqi_v\<close>, as its items in insertion order. It has the six keys
  whatever the readings are.
\<close>

definition aqi_v :: "(string \<Rightarrow> rat option) \<Rightarrow> (string \<times> int) list" where
  "aqi_v components =
     [(''o3_ppm'', calculate_pollutant_aqi ''o3_ppm'' (o3_c (components_get components ''o3''))),
      (''pm2_5'', calculate_pollutant_aqi ''pm2_5'' (pm25_c (components_get components ''pm2_5''))),
      (''pm10'', calculate_pollutant_aqi ''pm10'' (pm10_c (components_get components ''pm10''))),
      (''co_ppm'', calculate_pollutant_aqi ''co_ppm'' (co_c (components_get components ''co''))),
      (''so2_ppb'', calculate_pollutant_aqi ''so2_ppb'' (so2_c (components_get components ''so2''))),
      (''no2_ppb'', calculate_pollutant_aqi ''no2_ppb'' (no2_c (components_get components ''no2'')))]"

text \<open>\<^verbatim>\<open>overall_aqi = max(aqi_v.values()) if aqi_v else 0\<close>\<close>

definition overall_aqi :: "(string \<times> int) list \<Rightarrow> error + int" where
  "overall_aqi d = (if d \<noteq> [] then py_max (map snd d) else Inr 0)"

text \<open>\<^verbatim>\<open>dominant_pollutant_key = max(aqi_v, key=aqi_v.get)\<close>\<close>

definition dominant_pollutant_key :: "(string \<times> int) list \<Rightarrow> error + string" where
  "dominant_pollutant_key d = py_max_key d"

subsection \<open>Notions used to state the properties\<close>

text \<open>What one pass of the loop body returns for a row whose bracket holds the concentration.\<close>

definition bracket_aqi :: "breakpoint \<Rightarrow> rat \<Rightarrow> int" where
  "bracket_aqi bp concentration =
     (case bp of (bp_low, bp_hi, i_low, i_hi) \<Rightarrow>
        if bp_hi - bp_low = 0 then i_low else py_round (aqi bp concentration))"

text \<open>
  A table is ascending when every row has \<open>bp_low \<le> bp_hi\<close> and \<open>0 \<le> i_low \<le> i_hi\<close>, and
  every later row starts above it, in concentration and in index.
\<close>

fun ascending :: "breakpoint list \<Rightarrow> bool" where
  "ascending [] = True"
| "ascending ((bp_low, bp_hi, i_low, i_hi) # bps) =
     (bp_low \<le> bp_hi \<and> 0 \<le> i_low \<and> i_low \<le> i_hi \<and>
      list_all (\<lambda>(bp_low', bp_hi', i_low', i_hi'). bp_hi < bp_low' \<and> i_hi \<le> i_low') bps \<and>
      ascending bps)"

text \<open>
  A concentration is in a gap of a table when it is not negative, lies in no bracket and
  does not exceed the upper bound of the last row.
\<close>

definition in_gap :: "breakpoint list \<Rightarrow> rat \<Rightarrow> bool" where
  "in_gap bps c =
     (0 \<le> c \<and> list_all (\<lambda>bp. \<not> in_bracket bp c) bps \<and>
      (case last bps of (bp_low, bp_hi, i_low, i_hi) \<Rightarrow> c \<le> bp_hi))"

text \<open>The readings of the scenario with one extreme PM2.5 value, and no readings at all.\<close>

definition hazardous_readings :: "string \<Rightarrow> rat option" where
  "hazardous_readings =
     map_of [(''o3'', 0), (''pm2_5'', 500), (''pm10'', 0), (''co'', 0), (''so2'', 0), (''no2'', 0)]"

definition no_readings :: "string \<Rightarrow> rat option" where
  "no_readings = map_of []"

text \<open>The categories of the guide whose range holds a value.\<close>

definition matching_categories :: "int \<Rightarrow> category list" where
  "matching_categories aqi_value = filter (\<lambda>cat. in_range cat aqi_value) AIRNOW_AQI_GUIDE"

text \<open>The six keys of \<^verbatim>\<open>aqi_v\<close>, in the order of the dictionary literal.\<close>

definition pollutant_keys :: "string list" where
  "pollutant_keys = [''o3_ppm'', ''pm2_5'', ''pm10'', ''co_ppm'', ''so2_ppb'', ''no2_ppb'']"

text \<open>
  \<open>t\<close> is \<open>x\<close> cut off after the decimal places that \<open>scale\<close> stands for (1000 for three
  places, 10 for one, 1 for none): \<open>t\<close> is a multiple of \<open>1 / scale\<close>, is not further from
  zero than \<open>x\<close>, differs from \<open>x\<close> by less than \<open>1 / scale\<close>, and has the sign of \<open>x\<close>.
\<close>

definition truncated :: "rat \<Rightarrow> rat \<Rightarrow> rat \<Rightarrow> bool" where
  "truncated scale x t =
     (t * scale = of_int \<lfloor>t * scale\<rfloor> \<and> \<bar>t\<bar> \<le> \<bar>x\<bar> \<and> \<bar>x\<bar> < \<bar>t\<bar> + 1 / scale \<and> 0 \<le> t * x)"

section \<open>Properties of the engine\<close>

subsection \<open>Rounding and truncation\<close>

lemma py_round_of_int: "py_round (of_int n) = n"
  by (simp add: py_round_def)

lemma py_round_cases:
  "(py_round x = \<lfloor>x\<rfloor> \<and> x - of_int \<lfloor>x\<rfloor> \<le> 1 / 2) \<or> (py_round x = \<lfloor>x\<rfloor> + 1 \<and> 1 / 2 \<le> x - of_int \<lfloor>x\<rfloor>)"
  unfolding py_round_def Let_def by auto

lemma py_round_low: "x - of_int \<lfloor>x\<rfloor> < 1 / 2 \<Longrightarrow> py_round x = \<lfloor>x\<rfloor>"
  unfolding py_round_def Let_def by simp

lemma py_round_high: "1 / 2 < x - of_int \<lfloor>x\<rfloor> \<Longrightarrow> py_round x = \<lfloor>x\<rfloor> + 1"
  unfolding py_round_def Let_def by simp

lemma py_round_tie: "x - of_int \<lfloor>x\<rfloor> = 1 / 2 \<Longrightarrow> py_round x = (if even \<lfloor>x\<rfloor> then \<lfloor>x\<rfloor> else \<lfloor>x\<rfloor> + 1)"
  unfolding py_round_def Let_def by simp

lemma py_round_mono: 
  assumes "x \<le> y" shows "py_round x \<le> py_round y"
proof -
  have fg: "\<lfloor>x\<rfloor> \<le> \<lfloor>y\<rfloor>" using assms by (rule floor_mono)
  show ?thesis
  proof (cases "\<lfloor>x\<rfloor> = \<lfloor>y\<rfloor>")
    case False
    with fg have "\<lfloor>x\<rfloor> + 1 \<le> \<lfloor>y\<rfloor>" by simp
    moreover have "py_round x \<le> \<lfloor>x\<rfloor> + 1" using py_round_cases [of x] by auto
    moreover have "\<lfloor>y\<rfloor> \<le> py_round y" using py_round_cases [of y] by auto
    ultimately show ?thesis by linarith
  next
    case True
    define f where "f = \<lfloor>y\<rfloor>"
    have fx: "\<lfloor>x\<rfloor> = f" using True f_def by simp
    have d: "x - of_int f \<le> y - of_int f" using assms by simp
    consider "y - of_int f < 1 / 2" | "y - of_int f = 1 / 2" "x - of_int f < 1 / 2"
      | "y - of_int f = 1 / 2" "x - of_int f = 1 / 2" | "1 / 2 < y - of_int f"
      using d by linarith
    then show ?thesis
    proof cases
      case 1
      then have "x - of_int f < 1 / 2" using d by linarith
      then show ?thesis using 1 py_round_low [of x] py_round_low [of y] fx f_def by simp
    next
      case 2
      then show ?thesis using py_round_low [of x] py_round_tie [of y] fx f_def by simp
    next
      case 3
      then show ?thesis using py_round_tie [of x] py_round_tie [of y] fx f_def by simp
    next
      case 4
      then have "py_round y = f + 1" using py_round_high [of y] f_def by simp
      moreover have "py_round x \<le> f + 1" using py_round_cases [of x] fx by auto
      ultimately show ?thesis by simp
    qed
  qed
qed

lemma py_round_nearest: "\<bar>of_int (py_round x) - x\<bar> \<le> 1 / 2"
proof -
  have "of_int \<lfloor>x\<rfloor> \<le> x" "x < of_int \<lfloor>x\<rfloor> + 1" by linarith+
  then show ?thesis using py_round_cases [of x] by auto
qed

lemma py_round_tie_even:
  assumes "\<bar>of_int (py_round x) - x\<bar> = 1 / 2" shows "even (py_round x)"
proof -
  have b: "of_int \<lfloor>x\<rfloor> \<le> x" "x < of_int \<lfloor>x\<rfloor> + 1" by linarith+
  have "x - of_int \<lfloor>x\<rfloor> = 1 / 2"
  proof (rule ccontr)
    assume "x - of_int \<lfloor>x\<rfloor> \<noteq> 1 / 2"
    then consider "x - of_int \<lfloor>x\<rfloor> < 1 / 2" | "1 / 2 < x - of_int \<lfloor>x\<rfloor>" by linarith
    then show False
    proof cases
      case 1
      then show False using assms b py_round_low [of x] by simp
    next
      case 2
      then show False using assms b py_round_high [of x] by simp
    qed
  qed
  then show ?thesis using py_round_tie [of x] by simp
qed

lemma py_round_ge: "of_int a \<le> x \<Longrightarrow> a \<le> py_round x"
  using py_round_mono [of "of_int a" x] by (simp add: py_round_of_int)

lemma py_round_le: "x \<le> of_int b \<Longrightarrow> py_round x \<le> b"
  using py_round_mono [of x "of_int b"] by (simp add: py_round_of_int)

lemma py_int_trunc:
  "\<bar>of_int (py_int y)\<bar> \<le> \<bar>y\<bar> \<and> \<bar>y\<bar> < \<bar>of_int (py_int y)\<bar> + 1 \<and> 0 \<le> of_int (py_int y) * y"
proof (cases "0 \<le> y")
  case True
  then have "py_int y = \<lfloor>y\<rfloor>" by (simp add: py_int_def)
  moreover have "of_int \<lfloor>y\<rfloor> \<le> y" "y < of_int \<lfloor>y\<rfloor> + 1" by linarith+
  moreover have "0 \<le> \<lfloor>y\<rfloor>" using True by simp
  ultimately show ?thesis using True by (simp add: abs_if)
next
  case False
  define n where "n = \<lceil>y\<rceil>"
  have pn: "py_int y = n" using False by (simp add: py_int_def n_def)
  have b: "y \<le> of_int n" "of_int n < y + 1" unfolding n_def by linarith+
  have "n \<le> 0" using False by (simp add: n_def ceiling_le_zero)
  then have n0: "(of_int n :: rat) \<le> 0" by simp
  have y0: "y \<le> 0" using False by simp
  have a1: "\<bar>of_int n :: rat\<bar> = - of_int n" using n0 by simp
  have a2: "\<bar>y\<bar> = - y" using y0 by simp
  have "0 \<le> of_int n * y" using n0 y0 by (rule mult_nonpos_nonpos)
  then show ?thesis using b unfolding pn a1 a2 by simp
qed

subsection \<open>The scan over a table\<close>

lemma scan_brackets_Cons:
  "scan_brackets (bp # bps) c =
     (if in_bracket bp c then Some (bracket_aqi bp c) else scan_brackets bps c)"
  by (cases bp) (simp add: in_bracket_def bracket_aqi_def)

lemma scan_brackets_miss:
  "(\<forall>bp\<in>set bps. \<not> in_bracket bp c) \<Longrightarrow> scan_brackets bps c = None"
  by (induction bps) (simp_all add: scan_brackets_Cons del: scan_brackets.simps(2))

lemma scan_brackets_Some:
  "scan_brackets bps c = Some a \<Longrightarrow> \<exists>bp\<in>set bps. in_bracket bp c \<and> a = bracket_aqi bp c"
  by (induction bps) (auto simp add: scan_brackets_Cons simp del: scan_brackets.simps(2) split: if_splits)

lemma ascending_tail: "ascending (bp # bps) \<Longrightarrow> ascending bps"
  by (cases bp) simp

lemma ascending_later:
  "ascending ((lo, hi, il, ih) # bps) \<Longrightarrow> (lo', hi', il', ih') \<in> set bps \<Longrightarrow> hi < lo' \<and> ih \<le> il'"
  by (auto simp add: list_all_iff)

lemma ascending_row:
  "ascending bps \<Longrightarrow> (lo, hi, il, ih) \<in> set bps \<Longrightarrow> lo \<le> hi \<and> 0 \<le> il \<and> il \<le> ih"
  by (induction bps) auto

lemma scan_brackets_hit:
  "ascending bps \<Longrightarrow> bp \<in> set bps \<Longrightarrow> in_bracket bp c \<Longrightarrow> scan_brackets bps c = Some (bracket_aqi bp c)"
proof (induction bps)
  case Nil
  then show ?case by simp
next
  case (Cons b bps)
  show ?case
  proof (cases "bp = b")
    case True
    then show ?thesis using Cons.prems(3) by (simp add: scan_brackets_Cons del: scan_brackets.simps(2))
  next
    case False
    then have mem: "bp \<in> set bps" using Cons.prems(2) by simp
    obtain lo hi il ih where b: "b = (lo, hi, il, ih)" by (cases b)
    obtain lo' hi' il' ih' where bp: "bp = (lo', hi', il', ih')" by (cases bp)
    have "hi < lo'" using ascending_later Cons.prems(1) mem unfolding b bp by blast
    then have "\<not> in_bracket b c" using Cons.prems(3) unfolding b bp in_bracket_def by simp
    moreover have "scan_brackets bps c = Some (bracket_aqi bp c)"
      using Cons.IH ascending_tail [OF Cons.prems(1)] mem Cons.prems(3) by simp
    ultimately show ?thesis by (simp add: scan_brackets_Cons del: scan_brackets.simps(2))
  qed
qed

lemma aqi_mono:
  assumes "lo \<le> hi" "il \<le> ih" "c1 \<le> c2"
  shows "aqi (lo, hi, il, ih) c1 \<le> aqi (lo, hi, il, ih) c2"
proof -
  have "0 \<le> (of_int (ih - il) :: rat) / (hi - lo)" using assms by simp
  then have "(of_int (ih - il) / (hi - lo)) * (c1 - lo) \<le> (of_int (ih - il) / (hi - lo)) * (c2 - lo)"
    using assms(3) by (intro mult_left_mono) simp_all
  then show ?thesis by (simp add: aqi_def)
qed

lemma aqi_at_low: "aqi (lo, hi, il, ih) lo = of_int il"
  by (simp add: aqi_def)

lemma aqi_at_high: "hi \<noteq> lo \<Longrightarrow> aqi (lo, hi, il, ih) hi = of_int ih"
  by (simp add: aqi_def)

lemma bracket_aqi_bounds:
  assumes "lo \<le> hi" "il \<le> ih" "lo \<le> c" "c \<le> hi"
  shows "il \<le> bracket_aqi (lo, hi, il, ih) c \<and> bracket_aqi (lo, hi, il, ih) c \<le> ih"
proof (cases "hi = lo")
  case True
  then show ?thesis using assms by (simp add: bracket_aqi_def)
next
  case False
  have "aqi (lo, hi, il, ih) lo \<le> aqi (lo, hi, il, ih) c" using assms by (intro aqi_mono)
  then have l: "il \<le> py_round (aqi (lo, hi, il, ih) c)" by (simp add: aqi_at_low py_round_ge)
  have "aqi (lo, hi, il, ih) c \<le> aqi (lo, hi, il, ih) hi" using assms by (intro aqi_mono)
  then have h: "py_round (aqi (lo, hi, il, ih) c) \<le> ih" using False by (simp add: aqi_at_high py_round_le)
  show ?thesis using l h False by (simp add: bracket_aqi_def)
qed

lemma bracket_aqi_mono:
  assumes "lo \<le> hi" "il \<le> ih" "c1 \<le> c2"
  shows "bracket_aqi (lo, hi, il, ih) c1 \<le> bracket_aqi (lo, hi, il, ih) c2"
  using aqi_mono [OF assms] by (simp add: bracket_aqi_def py_round_mono)

lemma beyond_last_above:
  assumes "lo \<le> hi" "il \<le> ih" "hi < c"
  shows "ih \<le> beyond_last (lo, hi, il, ih) c"
proof (cases "hi = lo")
  case True
  then show ?thesis using assms by (simp add: beyond_last_def)
next
  case False
  have "aqi (lo, hi, il, ih) hi \<le> aqi (lo, hi, il, ih) c" using assms by (intro aqi_mono) simp_all
  then have "ih \<le> py_round (aqi (lo, hi, il, ih) c)" using False by (simp add: aqi_at_high py_round_ge)
  then show ?thesis using False assms by (simp add: beyond_last_def)
qed

lemma beyond_last_mono:
  assumes "lo \<le> hi" "il \<le> ih" "hi < c1" "c1 \<le> c2"
  shows "beyond_last (lo, hi, il, ih) c1 \<le> beyond_last (lo, hi, il, ih) c2"
  using aqi_mono [OF assms(1,2,4)] assms by (simp add: beyond_last_def py_round_mono)

lemma brackets_mono:
  assumes "ascending bps" "b1 \<in> set bps" "b2 \<in> set bps" "in_bracket b1 c1" "in_bracket b2 c2" "c1 \<le> c2"
  shows "bracket_aqi b1 c1 \<le> bracket_aqi b2 c2"
  using assms
proof (induction bps)
  case Nil
  then show ?case by simp
next
  case (Cons b bps)
  obtain lo hi il ih where b: "b = (lo, hi, il, ih)" by (cases b)
  obtain lo1 hi1 il1 ih1 where b1: "b1 = (lo1, hi1, il1, ih1)" by (cases b1)
  obtain lo2 hi2 il2 ih2 where b2: "b2 = (lo2, hi2, il2, ih2)" by (cases b2)
  have r1: "lo1 \<le> hi1 \<and> 0 \<le> il1 \<and> il1 \<le> ih1" using ascending_row Cons.prems(1,2) unfolding b1 by blast
  have r2: "lo2 \<le> hi2 \<and> 0 \<le> il2 \<and> il2 \<le> ih2" using ascending_row Cons.prems(1,3) unfolding b2 by blast
  have i1: "lo1 \<le> c1" "c1 \<le> hi1" using Cons.prems(4) unfolding b1 in_bracket_def by simp_all
  have i2: "lo2 \<le> c2" "c2 \<le> hi2" using Cons.prems(5) unfolding b2 in_bracket_def by simp_all
  consider "b1 = b" "b2 = b" | "b1 = b" "b2 \<in> set bps" | "b1 \<in> set bps" "b2 = b" | "b1 \<in> set bps" "b2 \<in> set bps"
    using Cons.prems(2,3) by auto
  then show ?case
  proof cases
    case 1
    then have "b2 = b1" by simp
    then show ?thesis using bracket_aqi_mono r1 Cons.prems(6) unfolding b1 by simp
  next
    case 2
    then have "hi1 < lo2 \<and> ih1 \<le> il2" using ascending_later Cons.prems(1) unfolding b1 b2 b by blast
    moreover have "bracket_aqi b1 c1 \<le> ih1" using bracket_aqi_bounds r1 i1 unfolding b1 by blast
    moreover have "il2 \<le> bracket_aqi b2 c2" using bracket_aqi_bounds r2 i2 unfolding b2 by blast
    ultimately show ?thesis by linarith
  next
    case 3
    then have "hi2 < lo1" using ascending_later Cons.prems(1) unfolding b1 b2 b by blast
    then show ?thesis using i1 i2 Cons.prems(6) by linarith
  next
    case 4
    then show ?thesis using Cons.IH ascending_tail [OF Cons.prems(1)] Cons.prems(4,5,6) by simp
  qed
qed

lemma ascending_last:
  "ascending bps \<Longrightarrow> (lo, hi, il, ih) \<in> set bps \<Longrightarrow> last bps = (lo', hi', il', ih') \<Longrightarrow> hi \<le> hi' \<and> ih \<le> ih'"
proof (induction bps)
  case Nil
  then show ?case by simp
next
  case (Cons b bps)
  show ?case
  proof (cases "bps = []")
    case True
    then show ?thesis using Cons.prems by simp
  next
    case False
    then have l: "last bps = (lo', hi', il', ih')" using Cons.prems(3) by simp
    have lm: "(lo', hi', il', ih') \<in> set bps" using False l last_in_set by metis
    show ?thesis
    proof (cases "(lo, hi, il, ih) \<in> set bps")
      case True
      then show ?thesis using Cons.IH ascending_tail [OF Cons.prems(1)] l by simp
    next
      case False
      then have "b = (lo, hi, il, ih)" using Cons.prems(2) by simp
      then have "hi < lo' \<and> ih \<le> il'" using ascending_later Cons.prems(1) lm by blast
      moreover have "lo' \<le> hi' \<and> 0 \<le> il' \<and> il' \<le> ih'"
        using ascending_row [OF ascending_tail [OF Cons.prems(1)] lm] .
      ultimately show ?thesis by linarith
    qed
  qed
qed

subsection \<open>The six tables\<close>

lemma BREAKPOINTS_ascending: "BREAKPOINTS k = Some bps \<Longrightarrow> ascending bps \<and> bps \<noteq> []"
  unfolding BREAKPOINTS_def by (auto split: if_splits)

lemma BREAKPOINTS_strict:
  "BREAKPOINTS k = Some bps \<Longrightarrow> (lo, hi, il, ih) \<in> set bps \<Longrightarrow> 0 \<le> lo \<and> lo < hi"
  unfolding BREAKPOINTS_def by (auto split: if_splits)

lemma calculate_unfold:
  "BREAKPOINTS k = Some bps \<Longrightarrow> 0 \<le> c \<Longrightarrow> calculate_pollutant_aqi k c = scan_then_last bps c"
  using BREAKPOINTS_ascending [of k bps] by (simp add: calculate_pollutant_aqi_def)

lemma calculate_in_bracket:
  assumes "BREAKPOINTS k = Some bps" "bp \<in> set bps" "in_bracket bp c"
  shows "calculate_pollutant_aqi k c = bracket_aqi bp c"
proof -
  obtain lo hi il ih where bp: "bp = (lo, hi, il, ih)" by (cases bp)
  have "0 \<le> lo" using BREAKPOINTS_strict assms(1,2) unfolding bp by blast
  then have "0 \<le> c" using assms(3) unfolding bp in_bracket_def by simp
  moreover have "scan_brackets bps c = Some (bracket_aqi bp c)"
    using scan_brackets_hit BREAKPOINTS_ascending assms by blast
  ultimately show ?thesis using calculate_unfold [OF assms(1)] by (simp add: scan_then_last_def)
qed

lemma scan_then_last_mono:
  assumes asc: "ascending bps" and ne: "bps \<noteq> []" and le: "c1 \<le> c2" and ng: "\<not> in_gap bps c2"
    and c1: "0 \<le> c1"
  shows "scan_then_last bps c1 \<le> scan_then_last bps c2"
proof -
  obtain lo hi il ih where l: "last bps = (lo, hi, il, ih)" by (cases "last bps")
  have lm: "(lo, hi, il, ih) \<in> set bps" using ne l last_in_set by metis
  have lr: "lo \<le> hi \<and> 0 \<le> il \<and> il \<le> ih" using ascending_row [OF asc lm] .
  show ?thesis
  proof (cases "scan_brackets bps c2")
    case (Some a2)
    then obtain b2 where b2: "b2 \<in> set bps" "in_bracket b2 c2" "a2 = bracket_aqi b2 c2"
      using scan_brackets_Some by blast
    obtain lo2 hi2 il2 ih2 where e2: "b2 = (lo2, hi2, il2, ih2)" by (cases b2)
    have r2: "lo2 \<le> hi2 \<and> 0 \<le> il2 \<and> il2 \<le> ih2" using ascending_row asc b2(1) unfolding e2 by blast
    have i2: "lo2 \<le> c2" "c2 \<le> hi2" using b2(2) unfolding e2 in_bracket_def by simp_all
    have a2: "il2 \<le> a2" using bracket_aqi_bounds r2 i2 unfolding b2(3) e2 by blast
    show ?thesis
    proof (cases "scan_brackets bps c1")
      case None
      have "hi2 \<le> hi" using ascending_last asc b2(1) l unfolding e2 by blast
      then have "\<not> hi < c1" using le i2 by linarith
      then have "scan_then_last bps c1 = 0" using None l by (simp add: scan_then_last_def beyond_last_def)
      then show ?thesis using Some a2 r2 by (simp add: scan_then_last_def)
    next
      case (Some a1)
      then obtain b1 where b1: "b1 \<in> set bps" "in_bracket b1 c1" "a1 = bracket_aqi b1 c1"
        using scan_brackets_Some by blast
      have "a1 \<le> a2" using brackets_mono [OF asc b1(1) b2(1) b1(2) b2(2) le] b1(3) b2(3) by simp
      then show ?thesis using Some \<open>scan_brackets bps c2 = Some a2\<close> by (simp add: scan_then_last_def)
    qed
  next
    case None
    then have "\<forall>bp\<in>set bps. \<not> in_bracket bp c2"
      using scan_brackets_hit [OF asc] by fastforce
    then have above: "hi < c2" using ng c1 le l by (simp add: in_gap_def list_all_iff)
    have v2: "scan_then_last bps c2 = beyond_last (lo, hi, il, ih) c2"
      using None l by (simp add: scan_then_last_def)
    have top: "ih \<le> beyond_last (lo, hi, il, ih) c2" using beyond_last_above lr above by blast
    show ?thesis
    proof (cases "scan_brackets bps c1")
      case (Some a1)
      then obtain b1 where b1: "b1 \<in> set bps" "in_bracket b1 c1" "a1 = bracket_aqi b1 c1"
        using scan_brackets_Some by blast
      obtain lo1 hi1 il1 ih1 where e1: "b1 = (lo1, hi1, il1, ih1)" by (cases b1)
      have r1: "lo1 \<le> hi1 \<and> 0 \<le> il1 \<and> il1 \<le> ih1" using ascending_row asc b1(1) unfolding e1 by blast
      have i1: "lo1 \<le> c1" "c1 \<le> hi1" using b1(2) unfolding e1 in_bracket_def by simp_all
      have "a1 \<le> ih1" using bracket_aqi_bounds r1 i1 unfolding b1(3) e1 by blast
      moreover have "ih1 \<le> ih" using ascending_last asc b1(1) l unfolding e1 by blast
      ultimately show ?thesis using top v2 Some by (simp add: scan_then_last_def)
    next
      case None
      then have v1: "scan_then_last bps c1 = beyond_last (lo, hi, il, ih) c1"
        using l by (simp add: scan_then_last_def)
      show ?thesis
      proof (cases "hi < c1")
        case True
        then show ?thesis using beyond_last_mono lr le v1 v2 by simp
      next
        case False
        then have "beyond_last (lo, hi, il, ih) c1 = 0" by (simp add: beyond_last_def)
        then show ?thesis using v1 v2 top lr by simp
      qed
    qed
  qed
qed

lemma scan_then_last_nonneg:
  assumes asc: "ascending bps" and ne: "bps \<noteq> []"
  shows "0 \<le> scan_then_last bps c"
proof -
  obtain lo hi il ih where l: "last bps = (lo, hi, il, ih)" by (cases "last bps")
  have lm: "(lo, hi, il, ih) \<in> set bps" using ne l last_in_set by metis
  have lr: "lo \<le> hi \<and> 0 \<le> il \<and> il \<le> ih" using ascending_row [OF asc lm] .
  show ?thesis
  proof (cases "scan_brackets bps c")
    case (Some a)
    then obtain b where b: "b \<in> set bps" "in_bracket b c" "a = bracket_aqi b c"
      using scan_brackets_Some by blast
    obtain lo1 hi1 il1 ih1 where e: "b = (lo1, hi1, il1, ih1)" by (cases b)
    have r: "lo1 \<le> hi1 \<and> 0 \<le> il1 \<and> il1 \<le> ih1" using ascending_row asc b(1) unfolding e by blast
    have i: "lo1 \<le> c" "c \<le> hi1" using b(2) unfolding e in_bracket_def by simp_all
    have "il1 \<le> a" using bracket_aqi_bounds r i unfolding b(3) e by blast
    then show ?thesis using Some r by (simp add: scan_then_last_def)
  next
    case None
    show ?thesis
    proof (cases "hi < c")
      case True
      then have "ih \<le> beyond_last (lo, hi, il, ih) c" using beyond_last_above lr by blast
      then show ?thesis using None l lr by (simp add: scan_then_last_def)
    next
      case False
      then show ?thesis using None l by (simp add: scan_then_last_def beyond_last_def)
    qed
  qed
qed

lemma calculate_nonneg: "0 \<le> calculate_pollutant_aqi k c"
proof (cases "BREAKPOINTS k")
  case None
  then show ?thesis by (simp add: calculate_pollutant_aqi_def)
next
  case (Some bps)
  then show ?thesis
    using scan_then_last_nonneg [of bps c] BREAKPOINTS_ascending [OF Some]
    by (simp add: calculate_pollutant_aqi_def)
qed

subsection \<open>Interpolation inside a bracket\<close>

lemma scan_brackets_above_last:
  assumes "ascending bps" "last bps = (lo, hi, il, ih)" "hi < c"
  shows "scan_brackets bps c = None"
proof (rule scan_brackets_miss, rule ballI)
  fix bp assume m: "bp \<in> set bps"
  obtain lo1 hi1 il1 ih1 where e: "bp = (lo1, hi1, il1, ih1)" by (cases bp)
  have "hi1 \<le> hi" using ascending_last assms(1,2) m unfolding e by blast
  then show "\<not> in_bracket bp c" using assms(3) unfolding e in_bracket_def by simp
qed

lemma calculate_above_last:
  assumes "BREAKPOINTS k = Some bps" "last bps = (lo, hi, il, ih)" "hi < c"
  shows "calculate_pollutant_aqi k c = py_round (aqi (lo, hi, il, ih) c) \<and> ih \<le> calculate_pollutant_aqi k c"
proof -
  have asc: "ascending bps" and ne: "bps \<noteq> []" using BREAKPOINTS_ascending [OF assms(1)] by simp_all
  have lm: "(lo, hi, il, ih) \<in> set bps" using ne assms(2) last_in_set by metis
  have s: "0 \<le> lo \<and> lo < hi" using BREAKPOINTS_strict [OF assms(1) lm] .
  have r: "lo \<le> hi \<and> 0 \<le> il \<and> il \<le> ih" using ascending_row [OF asc lm] .
  have "0 \<le> c" using s assms(3) by linarith
  then have "calculate_pollutant_aqi k c = beyond_last (lo, hi, il, ih) c"
    using calculate_unfold [OF assms(1)] scan_brackets_above_last [OF asc assms(2,3)] assms(2)
    by (simp add: scan_then_last_def)
  moreover have "beyond_last (lo, hi, il, ih) c = py_round (aqi (lo, hi, il, ih) c)"
    using s assms(3) by (simp add: beyond_last_def)
  moreover have "ih \<le> beyond_last (lo, hi, il, ih) c" using beyond_last_above r assms(3) by blast
  ultimately show ?thesis by simp
qed

text \<open>
  Claim C3. For each of the six pollutants and each of the six rows of its table,
  \<open>calculate_pollutant_aqi\<close> at the row's \<open>bp_low\<close> is the row's \<open>i_low\<close>, and at the row's
  \<open>bp_hi\<close> it is the row's \<open>i_hi\<close>.
\<close>

theorem boundary_exactness:
  assumes "BREAKPOINTS k = Some bps" "(bp_low, bp_hi, i_low, i_hi) \<in> set bps"
  shows "calculate_pollutant_aqi k bp_low = i_low \<and> calculate_pollutant_aqi k bp_hi = i_hi \<and> length bps = 6"
proof -
  have s: "0 \<le> bp_low \<and> bp_low < bp_hi" using BREAKPOINTS_strict [OF assms] .
  have "in_bracket (bp_low, bp_hi, i_low, i_hi) bp_low" using s by (simp add: in_bracket_def)
  then have "calculate_pollutant_aqi k bp_low = bracket_aqi (bp_low, bp_hi, i_low, i_hi) bp_low"
    using calculate_in_bracket assms by blast
  then have l: "calculate_pollutant_aqi k bp_low = i_low"
    using s by (simp add: bracket_aqi_def aqi_at_low py_round_of_int)
  have "in_bracket (bp_low, bp_hi, i_low, i_hi) bp_hi" using s by (simp add: in_bracket_def)
  then have "calculate_pollutant_aqi k bp_hi = bracket_aqi (bp_low, bp_hi, i_low, i_hi) bp_hi"
    using calculate_in_bracket assms by blast
  then have h: "calculate_pollutant_aqi k bp_hi = i_hi"
    using s by (simp add: bracket_aqi_def aqi_at_high py_round_of_int)
  have n: "length bps = 6" using assms(1) unfolding BREAKPOINTS_def by (auto split: if_splits)
  show ?thesis using l h n by simp
qed

theorem boundary_exactness_witness:
  "BREAKPOINTS ''pm2_5'' =
     Some [(0, 9, 0, 50), (91/10, 354/10, 51, 100), (355/10, 554/10, 101, 150),
           (555/10, 1254/10, 151, 200), (1255/10, 2254/10, 201, 300), (2255/10, 3254/10, 301, 400)]
   \<and> (91/10, 354/10, 51, 100) \<in> set ([(0, 9, 0, 50), (91/10, 354/10, 51, 100), (355/10, 554/10, 101, 150),
           (555/10, 1254/10, 151, 200), (1255/10, 2254/10, 201, 300), (2255/10, 3254/10, 301, 400)] :: breakpoint list)
   \<and> calculate_pollutant_aqi ''pm2_5'' (91/10) = 51
   \<and> calculate_pollutant_aqi ''pm2_5'' (354/10) = 100"
proof -
  have h1: "BREAKPOINTS ''pm2_5'' =
     Some [(0, 9, 0, 50), (91/10, 354/10, 51, 100), (355/10, 554/10, 101, 150),
           (555/10, 1254/10, 151, 200), (1255/10, 2254/10, 201, 300), (2255/10, 3254/10, 301, 400)]"
    by (simp add: BREAKPOINTS_def)
  have h2: "(91/10, 354/10, 51, 100) \<in> set ([(0, 9, 0, 50), (91/10, 354/10, 51, 100), (355/10, 554/10, 101, 150),
           (555/10, 1254/10, 151, 200), (1255/10, 2254/10, 201, 300), (2255/10, 3254/10, 301, 400)] :: breakpoint list)"
    by simp
  show ?thesis using boundary_exactness [OF h1 h2] h1 h2 by blast
qed

subsection \<open>Gaps, monotonicity and extrapolation\<close>


lemma calculate_mono_outside_gaps:
  assumes "BREAKPOINTS k = Some bps" "c1 \<le> c2" "\<not> in_gap bps c2"
  shows "calculate_pollutant_aqi k c1 \<le> calculate_pollutant_aqi k c2"
proof (cases "c1 < 0")
  case True
  then have "calculate_pollutant_aqi k c1 = 0" by (simp add: calculate_pollutant_aqi_def)
  then show ?thesis using calculate_nonneg [of k c2] by simp
next
  case False
  then have n1: "0 \<le> c1" by simp
  then have n2: "0 \<le> c2" using assms(2) by linarith
  have asc: "ascending bps" and ne: "bps \<noteq> []" using BREAKPOINTS_ascending [OF assms(1)] by simp_all
  have "scan_then_last bps c1 \<le> scan_then_last bps c2"
    using scan_then_last_mono [OF asc ne assms(2,3) n1] .
  then show ?thesis using calculate_unfold [OF assms(1)] n1 n2 by simp
qed



text \<open>
  Claim C10. For each of the six pollutants, a concentration that is not negative, lies
  in none of the pollutant's brackets and does not exceed the upper bound of the last
  row gets the sub-index 0; 9.05 for PM2.5, between the brackets 0.0 to 9.0 and 9.1 to
  35.4, is such a concentration.
\<close>

theorem gap_gives_zero:
  assumes "BREAKPOINTS k = Some bps" "0 \<le> c" "\<forall>bp\<in>set bps. \<not> in_bracket bp c"
    and "last bps = (bp_low, bp_hi, i_low, i_hi)" "c \<le> bp_hi"
  shows "calculate_pollutant_aqi k c = 0"
proof -
  have "scan_brackets bps c = None" using scan_brackets_miss assms(3) by blast
  then have "scan_then_last bps c = 0"
    using assms(4,5) by (simp add: scan_then_last_def beyond_last_def)
  then show ?thesis using calculate_unfold [OF assms(1,2)] by simp
qed

theorem gap_gives_zero_witness:
  "BREAKPOINTS ''pm2_5'' =
     Some [(0, 9, 0, 50), (91/10, 354/10, 51, 100), (355/10, 554/10, 101, 150),
           (555/10, 1254/10, 151, 200), (1255/10, 2254/10, 201, 300), (2255/10, 3254/10, 301, 400)]
   \<and> (0 :: rat) \<le> 905 / 100
   \<and> list_all (\<lambda>bp. \<not> in_bracket bp (905 / 100))
         [(0, 9, 0, 50), (91/10, 354/10, 51, 100), (355/10, 554/10, 101, 150),
           (555/10, 1254/10, 151, 200), (1255/10, 2254/10, 201, 300), (2255/10, 3254/10, 301, 400)]
   \<and> last ([(0, 9, 0, 50), (91/10, 354/10, 51, 100), (355/10, 554/10, 101, 150),
           (555/10, 1254/10, 151, 200), (1255/10, 2254/10, 201, 300), (2255/10, 3254/10, 301, 400)] :: breakpoint list)
       = (2255/10, 3254/10, 301, 400)
   \<and> (905 / 100 :: rat) \<le> 3254 / 10
   \<and> calculate_pollutant_aqi ''pm2_5'' (905 / 100) = 0"
proof -
  have h1: "BREAKPOINTS ''pm2_5'' =
     Some [(0, 9, 0, 50), (91/10, 354/10, 51, 100), (355/10, 554/10, 101, 150),
           (555/10, 1254/10, 151, 200), (1255/10, 2254/10, 201, 300), (2255/10, 3254/10, 301, 400)]"
    by (simp add: BREAKPOINTS_def)
  have h2: "(0 :: rat) \<le> 905 / 100" by simp
  have h3: "\<forall>bp\<in>set [(0, 9, 0, 50), (91/10, 354/10, 51, 100), (355/10, 554/10, 101, 150),
           (555/10, 1254/10, 151, 200), (1255/10, 2254/10, 201, 300), (2255/10, 3254/10, 301, 400)].
         \<not> in_bracket bp (905 / 100)"
    by (simp add: in_bracket_def)
  have h4: "last ([(0, 9, 0, 50), (91/10, 354/10, 51, 100), (355/10, 554/10, 101, 150),
           (555/10, 1254/10, 151, 200), (1255/10, 2254/10, 201, 300), (2255/10, 3254/10, 301, 400)] :: breakpoint list)
       = (2255/10, 3254/10, 301, 400)"
    by simp
  have h5: "(905 / 100 :: rat) \<le> 3254 / 10" by simp
  have h3': "list_all (\<lambda>bp. \<not> in_bracket bp (905 / 100))
         [(0, 9, 0, 50), (91/10, 354/10, 51, 100), (355/10, 554/10, 101, 150),
           (555/10, 1254/10, 151, 200), (1255/10, 2254/10, 201, 300), (2255/10, 3254/10, 301, 400)]"
    by (simp add: in_bracket_def)
  show ?thesis using gap_gives_zero [OF h1 h2 h3 h4 h5] h1 h2 h3' h4 h5 by blast
qed

subsection \<open>Overall AQI and dominant pollutant\<close>

lemma fold_first_max:
  fixes p :: "'k \<times> int"
  shows "\<exists>pre k m post. p # ps = pre @ (k, m) # post \<and>
     fold (\<lambda>q m. if snd m < snd q then q else m) ps p = (k, m) \<and>
     (\<forall>q\<in>set pre. snd q < m) \<and> (\<forall>q\<in>set post. snd q \<le> m)"
proof (induction ps rule: rev_induct)
  case Nil
  have "p # [] = [] @ (fst p, snd p) # [] \<and>
      fold (\<lambda>q m. if snd m < snd q then q else m) [] p = (fst p, snd p) \<and>
      (\<forall>q\<in>set []. snd q < snd p) \<and> (\<forall>q\<in>set []. snd q \<le> snd p)"
    by simp
  then show ?case by (intro exI)
next
  case (snoc q ps)
  then obtain pre k m post where d: "p # ps = pre @ (k, m) # post"
    and f: "fold (\<lambda>q m. if snd m < snd q then q else m) ps p = (k, m)"
    and lo: "\<forall>q\<in>set pre. snd q < m" and hi: "\<forall>q\<in>set post. snd q \<le> m"
    by blast
  show ?case
  proof (cases "m < snd q")
    case True
    have e: "p # ps @ [q] = (p # ps) @ (fst q, snd q) # []" by simp
    have v: "fold (\<lambda>q m. if snd m < snd q then q else m) (ps @ [q]) p = (fst q, snd q)"
      using f True by simp
    have "\<forall>r\<in>set (p # ps). snd r < snd q"
    proof
      fix r assume "r \<in> set (p # ps)"
      then have "r \<in> set pre \<or> r = (k, m) \<or> r \<in> set post" unfolding d by auto
      then have "snd r \<le> m" using lo hi by fastforce
      then show "snd r < snd q" using True by linarith
    qed
    then have "p # ps @ [q] = (p # ps) @ (fst q, snd q) # [] \<and>
        fold (\<lambda>q m. if snd m < snd q then q else m) (ps @ [q]) p = (fst q, snd q) \<and>
        (\<forall>r\<in>set (p # ps). snd r < snd q) \<and> (\<forall>r\<in>set []. snd r \<le> snd q)"
      using e v by simp
    then show ?thesis by (intro exI)
  next
    case False
    have e: "p # ps @ [q] = pre @ (k, m) # (post @ [q])" using d by simp
    have v: "fold (\<lambda>q m. if snd m < snd q then q else m) (ps @ [q]) p = (k, m)"
      using f False by simp
    have "\<forall>r\<in>set (post @ [q]). snd r \<le> m" using hi False by auto
    then have "p # ps @ [q] = pre @ (k, m) # (post @ [q]) \<and>
        fold (\<lambda>q m. if snd m < snd q then q else m) (ps @ [q]) p = (k, m) \<and>
        (\<forall>r\<in>set pre. snd r < m) \<and> (\<forall>r\<in>set (post @ [q]). snd r \<le> m)"
      using e v lo by simp
    then show ?thesis by (intro exI)
  qed
qed

lemma fold_max_values:
  fixes p :: "'k \<times> int"
  shows "fold (\<lambda>y m. if m < y then y else m) (map snd ps) (snd p) =
   snd (fold (\<lambda>q m. if snd m < snd q then q else m) ps p)"
  by (induction ps arbitrary: p) simp_all

lemma first_max_decomposition:
  assumes "d \<noteq> []"
  shows "\<exists>pre k m post. d = pre @ (k, m) # post \<and> dominant_pollutant_key d = Inr k \<and>
     overall_aqi d = Inr m \<and> (\<forall>q\<in>set pre. snd q < m) \<and> (\<forall>q\<in>set post. snd q \<le> m)"
proof -
  obtain p ps where d: "d = p # ps" using assms by (cases d) auto
  obtain pre k m post where e: "p # ps = pre @ (k, m) # post"
    and f: "fold (\<lambda>q m. if snd m < snd q then q else m) ps p = (k, m)"
    and lo: "\<forall>q\<in>set pre. snd q < m" and hi: "\<forall>q\<in>set post. snd q \<le> m"
    using fold_first_max [of p ps] by blast
  have dom: "dominant_pollutant_key d = Inr k"
    using f by (simp add: dominant_pollutant_key_def py_max_key_def d)
  have ov: "overall_aqi d = Inr m"
    using f fold_max_values [of ps p] by (simp add: overall_aqi_def py_max_def d)
  show ?thesis using e dom ov lo hi unfolding d by blast
qed

lemma overall_aqi_Max:
  assumes "d \<noteq> []"
  shows "overall_aqi d = Inr (Max (snd ` set d))"
proof -
  obtain pre k m post where e: "d = pre @ (k, m) # post" and ov: "overall_aqi d = Inr m"
    and lo: "\<forall>q\<in>set pre. snd q < m" and hi: "\<forall>q\<in>set post. snd q \<le> m"
    using first_max_decomposition [OF assms] by blast
  have mem: "m \<in> snd ` set d" unfolding e by force
  have ub: "\<And>y. y \<in> snd ` set d \<Longrightarrow> y \<le> m"
  proof -
    fix y assume "y \<in> snd ` set d"
    then obtain r where r: "r \<in> set d" "y = snd r" by blast
    then have "r \<in> set pre \<or> r = (k, m) \<or> r \<in> set post" unfolding e by auto
    then show "y \<le> m" using lo hi r(2) by fastforce
  qed
  have "Max (snd ` set d) = m" using mem ub by (intro Max_eqI) simp_all
  then show ?thesis using ov by simp
qed

lemma aqi_v_keys: "map fst (aqi_v components) = pollutant_keys"
  by (simp add: aqi_v_def pollutant_keys_def)

text \<open>
  Claim C2. For every non-empty dictionary of sub-indices, and so for the six sub-indices
  computed from any readings, the overall AQI is exactly the maximum of the sub-indices,
  and no sub-index exceeds it.
\<close>

theorem overall_aqi_is_maximum:
  assumes "d \<noteq> []"
  shows "overall_aqi d = Inr (Max (snd ` set d)) \<and> (\<forall>p\<in>set d. snd p \<le> Max (snd ` set d))
         \<and> overall_aqi (aqi_v components) = Inr (Max (snd ` set (aqi_v components)))"
proof -
  have "aqi_v components \<noteq> []" by (simp add: aqi_v_def)
  then have "overall_aqi (aqi_v components) = Inr (Max (snd ` set (aqi_v components)))"
    by (rule overall_aqi_Max)
  moreover have "\<forall>p\<in>set d. snd p \<le> Max (snd ` set d)" by simp
  ultimately show ?thesis using overall_aqi_Max [OF assms] by simp
qed

theorem overall_aqi_is_maximum_witness:
  "[(''o3_ppm'', 42), (''pm2_5'', 87), (''pm10'', 30), (''co_ppm'', 5), (''so2_ppb'', 87), (''no2_ppb'', 12 :: int)] \<noteq> []
   \<and> overall_aqi [(''o3_ppm'', 42), (''pm2_5'', 87), (''pm10'', 30), (''co_ppm'', 5), (''so2_ppb'', 87), (''no2_ppb'', 12)] = Inr 87
   \<and> overall_aqi [(''o3_ppm'', 42), (''pm2_5'', 87), (''pm10'', 30), (''co_ppm'', 5), (''so2_ppb'', 87), (''no2_ppb'', 12)]
       = Inr (Max (snd ` set [(''o3_ppm'', 42), (''pm2_5'', 87), (''pm10'', 30), (''co_ppm'', 5), (''so2_ppb'', 87), (''no2_ppb'', 12)]))"
proof -
  have h: "[(''o3_ppm'', 42), (''pm2_5'', 87), (''pm10'', 30), (''co_ppm'', 5), (''so2_ppb'', 87), (''no2_ppb'', 12 :: int)] \<noteq> []"
    by simp
  have v: "overall_aqi [(''o3_ppm'', 42), (''pm2_5'', 87), (''pm10'', 30), (''co_ppm'', 5), (''so2_ppb'', 87), (''no2_ppb'', 12)] = Inr 87"
    by (simp add: overall_aqi_def py_max_def)
  show ?thesis using overall_aqi_is_maximum [OF h] h v by blast
qed

text \<open>
  Claim C7. For every assignment of sub-indices to the six keys, taken in the order
  O3, PM2.5, PM10, CO, SO2, NO2, the dominant pollutant is a key whose sub-index is the
  overall AQI, every key before it has a strictly smaller sub-index, and no key after it
  has a greater one: among several maximal keys the first is chosen.
\<close>

theorem dominant_pollutant_first_maximum:
  assumes "map fst d = pollutant_keys"
  shows "\<exists>pre k m post. d = pre @ (k, m) # post \<and> dominant_pollutant_key d = Inr k \<and>
     overall_aqi d = Inr m \<and> (\<forall>q\<in>set pre. snd q < m) \<and> (\<forall>q\<in>set post. snd q \<le> m)"
proof -
  have "d \<noteq> []" using assms by (auto simp add: pollutant_keys_def)
  then show ?thesis by (rule first_max_decomposition)
qed

theorem dominant_pollutant_first_maximum_witness:
  "map fst [(''o3_ppm'', 42), (''pm2_5'', 87), (''pm10'', 30), (''co_ppm'', 5), (''so2_ppb'', 87), (''no2_ppb'', 12 :: int)]
     = pollutant_keys
   \<and> dominant_pollutant_key [(''o3_ppm'', 42), (''pm2_5'', 87), (''pm10'', 30), (''co_ppm'', 5), (''so2_ppb'', 87), (''no2_ppb'', 12)]
       = Inr ''pm2_5''
   \<and> overall_aqi [(''o3_ppm'', 42), (''pm2_5'', 87), (''pm10'', 30), (''co_ppm'', 5), (''so2_ppb'', 87), (''no2_ppb'', 12)]
       = Inr 87
   \<and> (\<exists>pre post. ([(''o3_ppm'', 42), (''pm2_5'', 87), (''pm10'', 30), (''co_ppm'', 5), (''so2_ppb'', 87), (''no2_ppb'', 12)] :: (string \<times> int) list)
          = pre @ (''pm2_5'', 87) # post)"
proof -
  have h: "map fst [(''o3_ppm'', 42), (''pm2_5'', 87), (''pm10'', 30), (''co_ppm'', 5), (''so2_ppb'', 87), (''no2_ppb'', 12 :: int)]
     = pollutant_keys"
    by (simp add: pollutant_keys_def)
  have v: "dominant_pollutant_key [(''o3_ppm'', 42), (''pm2_5'', 87), (''pm10'', 30), (''co_ppm'', 5), (''so2_ppb'', 87), (''no2_ppb'', 12)]
       = Inr ''pm2_5''"
    by (simp add: dominant_pollutant_key_def py_max_key_def)
  have w: "overall_aqi [(''o3_ppm'', 42), (''pm2_5'', 87), (''pm10'', 30), (''co_ppm'', 5), (''so2_ppb'', 87), (''no2_ppb'', 12)]
       = Inr 87"
    by (simp add: overall_aqi_def py_max_def)
  obtain pre k m post where
    e: "[(''o3_ppm'', 42), (''pm2_5'', 87), (''pm10'', 30), (''co_ppm'', 5), (''so2_ppb'', 87), (''no2_ppb'', 12)]
          = pre @ (k, m) # post"
    and dk: "dominant_pollutant_key [(''o3_ppm'', 42), (''pm2_5'', 87), (''pm10'', 30), (''co_ppm'', 5), (''so2_ppb'', 87), (''no2_ppb'', 12)]
          = Inr k"
    and om: "overall_aqi [(''o3_ppm'', 42), (''pm2_5'', 87), (''pm10'', 30), (''co_ppm'', 5), (''so2_ppb'', 87), (''no2_ppb'', 12)]
          = Inr m"
    using dominant_pollutant_first_maximum [OF h] by blast
  have "k = ''pm2_5''" using dk v by simp
  moreover have "m = 87" using om w by simp
  ultimately have "\<exists>pre post. ([(''o3_ppm'', 42), (''pm2_5'', 87), (''pm10'', 30), (''co_ppm'', 5), (''so2_ppb'', 87), (''no2_ppb'', 12)] :: (string \<times> int) list)
          = pre @ (''pm2_5'', 87) # post"
    using e by blast
  then show ?thesis using h v w by blast
qed

subsection \<open>Category lookup and empty input\<close>

text \<open>
  Claim C8, as the specification states it: for every non-negative integer AQI exactly
  one category of the guide matches. It fails above the last upper bound: no range of
  the guide holds 10001.
\<close>

theorem category_partition_counterexample:
  "(0 :: int) \<le> 10001 \<and> matching_categories 10001 = []"
  by (simp add: matching_categories_def AIRNOW_AQI_GUIDE_def in_range_def)

lemma scan_guide_filter:
  "scan_guide cats a = (case filter (\<lambda>cat. in_range cat a) cats of [] \<Rightarrow> None | cat # _ \<Rightarrow> Some cat)"
  by (induction cats) simp_all

lemma get_airnow_aqi_info_matching:
  "get_airnow_aqi_info a =
     (case matching_categories a of [] \<Rightarrow> last AIRNOW_AQI_GUIDE | cat # _ \<Rightarrow> cat)"
  by (simp add: get_airnow_aqi_info_def matching_categories_def scan_guide_filter split: list.splits)

lemma matching_categories_single:
  assumes "0 \<le> a" "a \<le> 10000"
  shows "length (matching_categories a) = 1"
proof -
  consider "a \<le> 50" | "51 \<le> a" "a \<le> 100" | "101 \<le> a" "a \<le> 150" | "151 \<le> a" "a \<le> 200"
    | "201 \<le> a" "a \<le> 300" | "301 \<le> a"
    by linarith
  then show ?thesis
    using assms
    by cases (simp_all add: matching_categories_def AIRNOW_AQI_GUIDE_def in_range_def)
qed

lemma matching_categories_none: "10000 < a \<Longrightarrow> matching_categories a = []"
  by (simp add: matching_categories_def AIRNOW_AQI_GUIDE_def in_range_def)

text \<open>
  Claim C8, amended. For every integer AQI from 0 to 10000 exactly one category of the
  guide matches, and the lookup returns it; for every AQI above 10000 no category
  matches, and the lookup returns the last category, Hazardous.
\<close>

theorem category_lookup_partition:
  "(0 \<le> a \<and> a \<le> 10000 \<longrightarrow> matching_categories a = [get_airnow_aqi_info a]) \<and>
   (10000 < a \<longrightarrow> matching_categories a = [] \<and>
      get_airnow_aqi_info a = last AIRNOW_AQI_GUIDE \<and> level (get_airnow_aqi_info a) = ''Hazardous'')"
proof (intro conjI impI)
  assume r: "0 \<le> a \<and> a \<le> 10000"
  then have "length (matching_categories a) = 1" using matching_categories_single by blast
  then obtain cat where c: "matching_categories a = [cat]"
    by (cases "matching_categories a") auto
  then show "matching_categories a = [get_airnow_aqi_info a]"
    by (simp add: get_airnow_aqi_info_matching)
next
  assume "10000 < a"
  then show "matching_categories a = []" by (rule matching_categories_none)
next
  assume "10000 < a"
  then have "matching_categories a = []" by (rule matching_categories_none)
  then show "get_airnow_aqi_info a = last AIRNOW_AQI_GUIDE"
    by (simp add: get_airnow_aqi_info_matching)
next
  assume "10000 < a"
  then have "matching_categories a = []" by (rule matching_categories_none)
  then have "get_airnow_aqi_info a = last AIRNOW_AQI_GUIDE"
    by (simp add: get_airnow_aqi_info_matching)
  then show "level (get_airnow_aqi_info a) = ''Hazardous''"
    by (simp add: AIRNOW_AQI_GUIDE_def)
qed

theorem category_lookup_partition_witness:
  "(0 :: int) \<le> 75 \<and> (75 :: int) \<le> 10000 \<and> matching_categories 75 = [get_airnow_aqi_info 75]
   \<and> level (get_airnow_aqi_info 75) = ''Moderate''
   \<and> (10000 :: int) < 10001 \<and> matching_categories 10001 = []
   \<and> level (get_airnow_aqi_info 10001) = ''Hazardous''"
proof -
  have h1: "(0 :: int) \<le> 75 \<and> (75 :: int) \<le> 10000" by simp
  have h2: "(10000 :: int) < 10001" by simp
  have a: "matching_categories 75 = [get_airnow_aqi_info 75]"
    using category_lookup_partition [of 75] h1 by blast
  have b: "matching_categories 10001 = [] \<and> level (get_airnow_aqi_info 10001) = ''Hazardous''"
    using category_lookup_partition [of 10001] h2 by blast
  have c: "level (get_airnow_aqi_info 75) = ''Moderate''" by code_simp
  show ?thesis using h1 h2 a b c by blast
qed

text \<open>
  Claim C9, as the specification states it: for an empty set of readings the aggregation
  fails with an error. The code returns the overall AQI 0.
\<close>

theorem empty_readings_counterexample:
  "overall_aqi (aqi_v no_readings) = Inr 0"
  by code_simp

text \<open>
  Claim C9, amended. For an empty set of readings the aggregation does not fail: every
  missing reading counts as 0, the six sub-indices are 0, the overall AQI is 0 and the
  dominant pollutant is the first key; the overall AQI of an empty dictionary of
  sub-indices is 0 as well.
\<close>

theorem empty_readings_give_zero:
  "aqi_v no_readings =
     [(''o3_ppm'', 0), (''pm2_5'', 0), (''pm10'', 0), (''co_ppm'', 0), (''so2_ppb'', 0), (''no2_ppb'', 0)]
   \<and> overall_aqi (aqi_v no_readings) = Inr 0
   \<and> dominant_pollutant_key (aqi_v no_readings) = Inr ''o3_ppm''
   \<and> overall_aqi [] = Inr 0"
proof -
  have a: "aqi_v no_readings =
     [(''o3_ppm'', 0), (''pm2_5'', 0), (''pm10'', 0), (''co_ppm'', 0), (''so2_ppb'', 0), (''no2_ppb'', 0)]"
    by code_simp
  have b: "overall_aqi (aqi_v no_readings) = Inr 0" by code_simp
  have c: "dominant_pollutant_key (aqi_v no_readings) = Inr ''o3_ppm''" by code_simp
  have d: "overall_aqi [] = Inr 0" by (simp add: overall_aqi_def)
  show ?thesis using a b c d by blast
qed

subsection \<open>Unit conversion\<close>

lemma py_int_truncated:
  assumes "0 < scale"
  shows "truncated scale x (of_int (py_int (x * scale)) / scale)"
proof -
  define n where "n = py_int (x * scale)"
  have t: "\<bar>of_int n :: rat\<bar> \<le> \<bar>x * scale\<bar>" "\<bar>x * scale\<bar> < \<bar>of_int n :: rat\<bar> + 1"
    "0 \<le> (of_int n :: rat) * (x * scale)"
    using py_int_trunc [of "x * scale"] unfolding n_def by simp_all
  have ax: "\<bar>x * scale\<bar> = \<bar>x\<bar> * scale" using assms by (simp add: abs_mult)
  have a: "(of_int n / scale) * scale = (of_int \<lfloor>(of_int n / scale) * scale\<rfloor> :: rat)"
    using assms by simp
  have at: "\<bar>of_int n / scale\<bar> = \<bar>of_int n :: rat\<bar> / scale" using assms by simp
  have b: "\<bar>of_int n / scale\<bar> \<le> \<bar>x\<bar>"
    using t(1) assms unfolding ax at by (simp add: pos_divide_le_eq)
  have c: "\<bar>x\<bar> < \<bar>of_int n / scale\<bar> + 1 / scale"
  proof -
    have "\<bar>x\<bar> * scale < \<bar>of_int n :: rat\<bar> + 1" using t(2) unfolding ax .
    then have "\<bar>x\<bar> < (\<bar>of_int n :: rat\<bar> + 1) / scale" using assms by (simp add: pos_less_divide_eq)
    then show ?thesis unfolding at by (simp add: add_divide_distrib)
  qed
  have d: "0 \<le> (of_int n / scale) * x"
  proof -
    have "(of_int n / scale) * x = ((of_int n :: rat) * (x * scale)) / (scale * scale)"
      using assms by simp
    moreover have "0 \<le> ((of_int n :: rat) * (x * scale)) / (scale * scale)"
      using t(3) assms by (intro divide_nonneg_pos) simp_all
    ultimately show ?thesis by simp
  qed
  show ?thesis using a b c d unfolding truncated_def n_def by blast
qed

subsection \<open>Truncated readings\<close>

lemma py_int_mono: "x \<le> y \<Longrightarrow> py_int x \<le> py_int y"
proof -
  assume le: "x \<le> y"
  consider "0 \<le> x" | "x < 0" "y < 0" | "x < 0" "0 \<le> y" by linarith
  then show ?thesis
  proof cases
    case 1
    then have "0 \<le> y" using le by linarith
    then show ?thesis using 1 le by (simp add: py_int_def floor_mono)
  next
    case 2
    then show ?thesis using le by (simp add: py_int_def ceiling_mono)
  next
    case 3
    have "\<lceil>x\<rceil> \<le> 0" using 3(1) by (simp add: ceiling_le_zero)
    moreover have "0 \<le> \<lfloor>y\<rfloor>" using 3(2) by simp
    ultimately have "\<lceil>x\<rceil> \<le> \<lfloor>y\<rfloor>" by linarith
    then show ?thesis using 3 by (simp add: py_int_def)
  qed
qed

lemma o3_grid: "BREAKPOINTS ''o3_ppm'' = Some bps \<Longrightarrow> \<not> in_gap bps (of_int n / 1000)"
  by (auto simp add: BREAKPOINTS_def in_gap_def in_bracket_def)

lemma pm25_grid: "BREAKPOINTS ''pm2_5'' = Some bps \<Longrightarrow> \<not> in_gap bps (of_int n / 10)"
  by (auto simp add: BREAKPOINTS_def in_gap_def in_bracket_def)

lemma pm10_grid: "BREAKPOINTS ''pm10'' = Some bps \<Longrightarrow> \<not> in_gap bps (of_int n)"
  by (auto simp add: BREAKPOINTS_def in_gap_def in_bracket_def)

lemma co_grid: "BREAKPOINTS ''co_ppm'' = Some bps \<Longrightarrow> \<not> in_gap bps (of_int n / 10)"
  by (auto simp add: BREAKPOINTS_def in_gap_def in_bracket_def)

lemma so2_grid: "BREAKPOINTS ''so2_ppb'' = Some bps \<Longrightarrow> \<not> in_gap bps (of_int n)"
  by (auto simp add: BREAKPOINTS_def in_gap_def in_bracket_def)

lemma no2_grid: "BREAKPOINTS ''no2_ppb'' = Some bps \<Longrightarrow> \<not> in_gap bps (of_int n)"
  by (auto simp add: BREAKPOINTS_def in_gap_def in_bracket_def)

text \<open>
  The concentrations that the caller passes are truncated to the precision of the tables,
  so they never fall in a gap, and each sub-index is monotone in the raw reading.
\<close>

lemma truncated_readings_monotone:
  assumes "v1 \<le> v2"
  shows "calculate_pollutant_aqi ''o3_ppm'' (o3_c v1) \<le> calculate_pollutant_aqi ''o3_ppm'' (o3_c v2)"
    and "calculate_pollutant_aqi ''pm2_5'' (pm25_c v1) \<le> calculate_pollutant_aqi ''pm2_5'' (pm25_c v2)"
    and "calculate_pollutant_aqi ''pm10'' (pm10_c v1) \<le> calculate_pollutant_aqi ''pm10'' (pm10_c v2)"
    and "calculate_pollutant_aqi ''co_ppm'' (co_c v1) \<le> calculate_pollutant_aqi ''co_ppm'' (co_c v2)"
    and "calculate_pollutant_aqi ''so2_ppb'' (so2_c v1) \<le> calculate_pollutant_aqi ''so2_ppb'' (so2_c v2)"
    and "calculate_pollutant_aqi ''no2_ppb'' (no2_c v1) \<le> calculate_pollutant_aqi ''no2_ppb'' (no2_c v2)"
proof -
  obtain b1 where b1: "BREAKPOINTS ''o3_ppm'' = Some b1" by (simp add: BREAKPOINTS_def)
  have "o3_raw_ppm v1 * 1000 \<le> o3_raw_ppm v2 * 1000"
    using assms by (simp add: o3_raw_ppm_def MOLAR_VOLUME_def MW_O3_def)
  then have "o3_c v1 \<le> o3_c v2"
    unfolding o3_c_def using py_int_mono by (simp add: divide_right_mono)
  then show "calculate_pollutant_aqi ''o3_ppm'' (o3_c v1) \<le> calculate_pollutant_aqi ''o3_ppm'' (o3_c v2)"
    using calculate_mono_outside_gaps [OF b1] o3_grid [OF b1] unfolding o3_c_def by blast
next
  obtain b2 where b2: "BREAKPOINTS ''pm2_5'' = Some b2" by (simp add: BREAKPOINTS_def)
  have "pm25_c v1 \<le> pm25_c v2"
    unfolding pm25_c_def using assms py_int_mono by (simp add: divide_right_mono)
  then show "calculate_pollutant_aqi ''pm2_5'' (pm25_c v1) \<le> calculate_pollutant_aqi ''pm2_5'' (pm25_c v2)"
    using calculate_mono_outside_gaps [OF b2] pm25_grid [OF b2] unfolding pm25_c_def by blast
next
  obtain b3 where b3: "BREAKPOINTS ''pm10'' = Some b3" by (simp add: BREAKPOINTS_def)
  have "pm10_c v1 \<le> pm10_c v2"
    unfolding pm10_c_def using assms py_int_mono by simp
  then show "calculate_pollutant_aqi ''pm10'' (pm10_c v1) \<le> calculate_pollutant_aqi ''pm10'' (pm10_c v2)"
    using calculate_mono_outside_gaps [OF b3] pm10_grid [OF b3] unfolding pm10_c_def by blast
next
  obtain b4 where b4: "BREAKPOINTS ''co_ppm'' = Some b4" by (simp add: BREAKPOINTS_def)
  have "co_raw_ppm v1 * 10 \<le> co_raw_ppm v2 * 10"
    using assms by (simp add: co_raw_ppm_def MOLAR_VOLUME_def MW_CO_def)
  then have "co_c v1 \<le> co_c v2"
    unfolding co_c_def using py_int_mono by (simp add: divide_right_mono)
  then show "calculate_pollutant_aqi ''co_ppm'' (co_c v1) \<le> calculate_pollutant_aqi ''co_ppm'' (co_c v2)"
    using calculate_mono_outside_gaps [OF b4] co_grid [OF b4] unfolding co_c_def by blast
next
  obtain b5 where b5: "BREAKPOINTS ''so2_ppb'' = Some b5" by (simp add: BREAKPOINTS_def)
  have "so2_raw_ppb v1 \<le> so2_raw_ppb v2"
    using assms by (simp add: so2_raw_ppb_def MOLAR_VOLUME_def MW_SO2_def)
  then have "so2_c v1 \<le> so2_c v2"
    unfolding so2_c_def using py_int_mono by simp
  then show "calculate_pollutant_aqi ''so2_ppb'' (so2_c v1) \<le> calculate_pollutant_aqi ''so2_ppb'' (so2_c v2)"
    using calculate_mono_outside_gaps [OF b5] so2_grid [OF b5] unfolding so2_c_def by blast
next
  obtain b6 where b6: "BREAKPOINTS ''no2_ppb'' = Some b6" by (simp add: BREAKPOINTS_def)
  have "no2_raw_ppb v1 \<le> no2_raw_ppb v2"
    using assms by (simp add: no2_raw_ppb_def MOLAR_VOLUME_def MW_NO2_def)
  then have "no2_c v1 \<le> no2_c v2"
    unfolding no2_c_def using py_int_mono by simp
  then show "calculate_pollutant_aqi ''no2_ppb'' (no2_c v1) \<le> calculate_pollutant_aqi ''no2_ppb'' (no2_c v2)"
    using calculate_mono_outside_gaps [OF b6] no2_grid [OF b6] unfolding no2_c_def by blast
qed

end
